theory Spec2Isabelle
  imports Complex_Main
begin

section \<open>Errors\<close>

text \<open>
  The exceptions the analysis package can raise. \<open>CompositionError\<close> is declared in
  \<open>whooshy/core.py\<close>; the others are Python built-ins raised by the code
  (\<open>TypeError\<close> by \<open>Composable.__or__\<close>, \<open>StopIteration\<close> by \<open>next\<close>,
  \<open>KeyError\<close> by a dictionary subscript).
\<close>

datatype error = CompositionError | TypeError | StopIteration | KeyError

section \<open>Characters and strings\<close>

text \<open>
  A Python \<open>str\<close> is a sequence of code points. The model takes the code points below
  256, one \<open>char\<close> each, so \<open>length\<close> is Python's \<open>len\<close>. The three built-ins below
  are Python's own on that range: \<open>str.lower\<close>, \<open>str.isspace\<close> (used by
  \<open>str.strip\<close>) and the word-character test behind \<open>\w\<close>.
\<close>

definition code :: "char \<Rightarrow> nat" where
  "code c = of_char c"

definition py_lower_char :: "char \<Rightarrow> char" where
  "py_lower_char c =
     (let n = code c
      in if (65 \<le> n \<and> n \<le> 90) \<or> (192 \<le> n \<and> n \<le> 222 \<and> n \<noteq> 215)
         then char_of (n + 32) else c)"

definition py_lower :: "string \<Rightarrow> string" where
  "py_lower s = map py_lower_char s"

definition py_isspace :: "char \<Rightarrow> bool" where
  "py_isspace c =
     (let n = code c
      in (9 \<le> n \<and> n \<le> 13) \<or> (28 \<le> n \<and> n \<le> 32) \<or> n = 133 \<or> n = 160)"

definition py_strip :: "string \<Rightarrow> string" where
  "py_strip s = rev (dropWhile py_isspace (rev (dropWhile py_isspace s)))"

definition py_isword :: "char \<Rightarrow> bool" where
  "py_isword c =
     (let n = code c
      in (48 \<le> n \<and> n \<le> 57) \<or> (65 \<le> n \<and> n \<le> 90) \<or> n = 95 \<or> (97 \<le> n \<and> n \<le> 122)
         \<or> n = 170 \<or> n = 178 \<or> n = 179 \<or> n = 181 \<or> n = 185 \<or> n = 186
         \<or> (188 \<le> n \<and> n \<le> 190) \<or> (192 \<le> n \<and> n \<le> 214)
         \<or> (216 \<le> n \<and> n \<le> 246) \<or> (248 \<le> n \<and> n \<le> 255))"

text \<open>
  Python's slice \<open>s[i:j]\<close> for integer bounds: a negative bound counts from the end, and
  both bounds are clamped to the string.
\<close>

definition py_bound :: "nat \<Rightarrow> int \<Rightarrow> nat" where
  "py_bound n i = (if i < 0 then nat (max 0 (i + int n)) else min (nat i) n)"

definition py_slice :: "string \<Rightarrow> int \<Rightarrow> int \<Rightarrow> string" where
  "py_slice s i j =
     (let a = py_bound (length s) i; b = py_bound (length s) j
      in take (b - a) (drop a s))"

section \<open>The pattern engine\<close>

text \<open>
  Modelled from the spec: the pattern engine. \<open>rcompile\<close> lives in
  \<open>whooshy/util/text.py\<close>, which is not among the sources, and hands the expression to
  Python's \<open>re.compile\<close>; the spec asks of it "find all non-overlapping matches",
  left to right. A compiled pattern is kept as its source text (the \<open>.pattern\<close>
  attribute that \<open>RegexTokenizer.__eq__\<close> reads) together with its syntax tree. The tree
  covers the constructs the package's own patterns use: character classes, concatenation,
  the greedy \<open>*\<close>, \<open>+\<close> and \<open>?\<close>, and grouping (groups only delimit: the tokenizers
  read group 0 alone).
\<close>

datatype citem = Chr char | Rng char char | WordC | SpaceC

datatype regex =
    Cls bool "citem list"
  | Cat regex regex
  | Star regex
  | Opt regex

abbreviation Plus :: "regex \<Rightarrow> regex" where
  "Plus r \<equiv> Cat r (Star r)"

record compiled =
  pattern :: string
  prog :: regex

fun in_citem :: "citem \<Rightarrow> char \<Rightarrow> bool" where
  "in_citem (Chr a) c = (c = a)"
| "in_citem (Rng lo hi) c = (code lo \<le> code c \<and> code c \<le> code hi)"
| "in_citem WordC c = py_isword c"
| "in_citem SpaceC c = py_isspace c"

text \<open>
  \<open>rmatch r s\<close> lists what is left of \<open>s\<close> after each way of matching \<open>r\<close> at its
  start, in the order a backtracking matcher tries them (greedy: the longer repetition
  first). The head of the list is the match Python reports. \<open>Cls negated items\<close> is a
  one-character class; a repetition whose body matched the empty string is not repeated
  again.
\<close>

fun rmatch :: "regex \<Rightarrow> string \<Rightarrow> string list" where
  "rmatch (Cls negated items) s =
     (case s of [] \<Rightarrow> []
      | c # cs \<Rightarrow> if list_ex (\<lambda>i. in_citem i c) items \<noteq> negated then [cs] else [])"
| "rmatch (Cat r1 r2) s = concat (map (rmatch r2) (rmatch r1 s))"
| "rmatch (Star r) s =
     concat (map (\<lambda>s'. if length s' < length s then rmatch (Star r) s' else []) (rmatch r s))
     @ [s]"
| "rmatch (Opt r) s = rmatch r s @ [s]"

text \<open>
  One attempt at one position: the number of characters of the preferred match, if any.
  With \<open>must_advance\<close> the empty match is refused, as Python's scanner does right after
  an empty match.
\<close>

definition match_at :: "regex \<Rightarrow> string \<Rightarrow> bool \<Rightarrow> nat option" where
  "match_at r s must_advance =
     (case filter (\<lambda>rest. \<not> must_advance \<or> length rest < length s) (rmatch r s) of
        [] \<Rightarrow> None
      | rest # _ \<Rightarrow> Some (length s - length rest))"

text \<open>
  \<open>search r s p must_advance\<close>: the leftmost match in the suffix \<open>s\<close> that starts at
  offset \<open>p\<close> of the input, as (start, end); only the first position tried is bound by
  \<open>must_advance\<close>.
\<close>

fun search :: "regex \<Rightarrow> string \<Rightarrow> nat \<Rightarrow> bool \<Rightarrow> (nat \<times> nat) option" where
  "search r [] p must_advance =
     (case match_at r [] must_advance of None \<Rightarrow> None | Some n \<Rightarrow> Some (p, p + n))"
| "search r (c # cs) p must_advance =
     (case match_at r (c # cs) must_advance of
        None \<Rightarrow> search r cs (Suc p) False
      | Some n \<Rightarrow> Some (p, p + n))"

text \<open>
  \<open>scan\<close> is the scanner behind \<open>finditer\<close>: it searches from the end of the previous
  match, and after an empty match insists on advancing.
\<close>

lemma match_at_bounds:
  assumes "match_at r s must_advance = Some n"
  shows "n \<le> length s \<and> (must_advance \<longrightarrow> 0 < n)"
proof -
  obtain rest more
    where f: "filter (\<lambda>rest. \<not> must_advance \<or> length rest < length s) (rmatch r s) = rest # more"
      and n: "n = length s - length rest"
    using assms by (auto simp: match_at_def split: list.splits)
  have "rest \<in> set (filter (\<lambda>rest. \<not> must_advance \<or> length rest < length s) (rmatch r s))"
    unfolding f by simp
  then have "\<not> must_advance \<or> length rest < length s"
    by simp
  with n show ?thesis
    by auto
qed

lemma search_bounds:
  "search r s p must_advance = Some (i, j) \<Longrightarrow>
     p \<le> i \<and> i \<le> j \<and> j \<le> p + length s \<and> (must_advance \<longrightarrow> p < j)"
proof (induction s arbitrary: p must_advance)
  case Nil
  then show ?case
    by (auto split: option.splits dest: match_at_bounds)
next
  case (Cons c cs)
  show ?case
  proof (cases "match_at r (c # cs) must_advance")
    case None
    with Cons.prems have "search r cs (Suc p) False = Some (i, j)"
      by simp
    from Cons.IH [OF this] show ?thesis
      by auto
  next
    case (Some n)
    with Cons.prems match_at_bounds [OF Some] show ?thesis
      by auto
  qed
qed

function scan :: "regex \<Rightarrow> string \<Rightarrow> nat \<Rightarrow> bool \<Rightarrow> (nat \<times> nat) list" where
  "scan r s p must_advance =
     (case search r s p must_advance of
        None \<Rightarrow> []
      | Some (i, j) \<Rightarrow> (i, j) # scan r (drop (j - p) s) j (j = i))"
  by pat_completeness auto
termination
proof (relation "measure (\<lambda>(r, s, p, m). 2 * length s + (if m then 0 else 1))")
  fix r :: regex and s :: string and p :: nat and must_advance :: bool
    and x2 :: "nat \<times> nat" and i j :: nat
  assume "search r s p must_advance = Some x2" and "(i, j) = x2"
  then have "search r s p must_advance = Some (i, j)"
    by simp
  from search_bounds [OF this]
  show "((r, drop (j - p) s, j, j = i), (r, s, p, must_advance))
          \<in> measure (\<lambda>(r, s, p, m). 2 * length s + (if m then 0 else 1))"
    by auto
qed simp

definition finditer :: "compiled \<Rightarrow> string \<Rightarrow> (nat \<times> nat) list" where
  "finditer expression v = scan (prog expression) v 0 False"

text \<open>The patterns the package itself compiles.\<close>

definition default_pattern :: compiled where
  "default_pattern =
     \<lparr>pattern = [CHR 0x5C] @ ''w+('' @ [CHR 0x5C] @ ''.?'' @ [CHR 0x5C] @ ''w+)*'',
      prog = Cat (Plus (Cls False [WordC]))
                 (Star (Cat (Opt (Cls False [Chr CHR ''.''])) (Plus (Cls False [WordC]))))\<rparr>"

text \<open>The default expression of \<open>PathTokenizer\<close>, \<open>[^/]+\<close>.\<close>

definition path_pattern :: compiled where
  "path_pattern = \<lparr>pattern = ''[^/]+'', prog = Plus (Cls True [Chr CHR ''/''])\<rparr>"

section \<open>Tokens and token streams\<close>

text \<open>
  \<open>Token\<close> of \<open>whooshy/core.py\<close>. The extension bag (\<open>**kwargs\<close> stored into
  \<open>__dict__\<close>) is left out: no stage of the package reads it.
\<close>

record Token =
  positions :: bool
  chars :: bool
  remove_stopwords :: bool
  mode :: string
  boost :: real
  stopped :: bool
  "text" :: string
  original_text :: string
  pos :: int
  start_char :: int
  end_char :: int

definition Token_init :: "bool \<Rightarrow> bool \<Rightarrow> bool \<Rightarrow> string \<Rightarrow> Token" where
  "Token_init positions' chars' remove_stopwords' mode' =
     \<lparr>positions = positions', chars = chars', remove_stopwords = remove_stopwords',
      mode = mode', boost = 1, stopped = False, text = [], original_text = [],
      pos = 0, start_char = 0, end_char = 0\<rparr>"

text \<open>
  A generator is modelled by what it does when it is run to its end: the tokens it yields,
  each as the shared token object stands at that \<open>yield\<close>, and the exception that ends
  it, if one does. Nothing of a generator's body runs when the generator is created, so
  an exception kept in \<open>raised\<close> reaches whoever iterates, not whoever called the stage.

  A filter assigns to the token it is handed and hands the same object on; in the model
  it hands on the changed value. What a filter assigned is therefore not seen by the
  tokenizer's next step here. The tokenizers assign \<open>text\<close> anew at every step (and
  \<open>pos\<close> when positions are asked for), \<open>RegexTokenizer\<close> also \<open>stopped\<close>, so
  the one assignment that can survive into a later step is that of \<open>stopped\<close> by a
  \<open>StopFilter\<close> behind a \<open>CharsetTokenizer\<close> or a \<open>PathTokenizer\<close>. The
  properties below are about single stages on arbitrary streams, about pipelines whose
  filters assign \<open>text\<close> only, or about pipelines whose tokenizer yields no token.
\<close>

record stream =
  yielded :: "Token list"
  raised :: "error option"

definition empty_stream :: stream where
  "empty_stream = \<lparr>yielded = [], raised = None\<rparr>"

definition yield :: "Token \<Rightarrow> stream \<Rightarrow> stream" where
  "yield t s = s\<lparr>yielded := t # yielded s\<rparr>"

text \<open>
  The keyword arguments of a tokenizer call, with the defaults of the signatures.
  The input is a \<open>str\<close>: decoding of \<open>bytes\<close> (\<open>utf8decode\<close>, not among the
  sources) is outside the model.
\<close>

record options =
  kw_positions :: bool
  kw_chars :: bool
  kw_keep_original :: bool
  kw_remove_stopwords :: bool
  kw_start_pos :: int
  kw_start_char :: int
  kw_tokenize :: bool
  kw_mode :: string

definition default_options :: options where
  "default_options =
     \<lparr>kw_positions = False, kw_chars = False, kw_keep_original = False,
      kw_remove_stopwords = True, kw_start_pos = 0, kw_start_char = 0,
      kw_tokenize = True, kw_mode = []\<rparr>"

definition new_token :: "options \<Rightarrow> Token" where
  "new_token kw =
     Token_init (kw_positions kw) (kw_chars kw) (kw_remove_stopwords kw) (kw_mode kw)"

definition len :: "string \<Rightarrow> int" where
  "len s = int (length s)"

section \<open>Stages\<close>

text \<open>
  The stage classes of \<open>tokenizers.py\<close>, \<open>filters.py\<close> and \<open>morph.py\<close>, each with
  its instance configuration. A character map is a dictionary from code points to
  replacements: \<open>None\<close> is a missing key, \<open>Some []\<close> a key mapped to \<open>None\<close> or to
  the empty string (the code tests the value for truth only). The sub-filters of a
  \<open>MultiFilter\<close> are its keyword arguments, kept in order. The logger of a
  \<open>LoggingFilter\<close> and what it prints are outside the model; the stemmer of a
  \<open>StemFilter\<close> is the function its \<open>stem\<close> method computes.
\<close>

type_synonym char_map = "char \<Rightarrow> string option"

datatype tokenizer =
    IDTokenizer
  | RegexTokenizer compiled bool
  | CharsetTokenizer char_map
  | PathTokenizer compiled

datatype filter =
    PassFilter
  | LoggingFilter
  | MultiFilter "(string \<times> filter) list"
  | LowercaseFilter
  | StripFilter
  | StopFilter "string set" int "int option" bool
  | CharsetFilter char_map
  | StemFilter string "string set" "string \<Rightarrow> string"

text \<open>
  A \<open>Composable\<close> object is a tokenizer, a filter or a \<open>CompositeAnalyzer\<close> with its
  \<open>items\<close>. The right-hand operand of \<open>|\<close> can be any Python object: \<open>NotComposable\<close>
  stands for one that is no instance of \<open>Composable\<close> (a plain function, say).
\<close>

datatype composable =
    Tok tokenizer
  | Fil filter
  | CompositeAnalyzer "composable list"

datatype operand = Obj composable | NotComposable

fun is_Tokenizer :: "composable \<Rightarrow> bool" where
  "is_Tokenizer (Tok _) = True"
| "is_Tokenizer _ = False"

fun is_CompositeAnalyzer :: "composable \<Rightarrow> bool" where
  "is_CompositeAnalyzer (CompositeAnalyzer _) = True"
| "is_CompositeAnalyzer _ = False"

fun is_morph :: "composable \<Rightarrow> bool" where
  "is_morph (Fil (StemFilter _ _ _)) = True"
| "is_morph _ = False"

section \<open>Composition\<close>

text \<open>
  \<open>CompositeAnalyzer.__init__\<close>: the items of a component that is itself a
  \<open>CompositeAnalyzer\<close> are spliced in, any other component is appended; then a
  tokenizer anywhere in \<open>items[1:]\<close> raises \<open>CompositionError\<close>.
\<close>

fun extend_items :: "composable list \<Rightarrow> composable list \<Rightarrow> composable list" where
  "extend_items acc [] = acc"
| "extend_items acc (CompositeAnalyzer its # comps) = extend_items (acc @ its) comps"
| "extend_items acc (c # comps) = extend_items (acc @ [c]) comps"

definition CompositeAnalyzer_init :: "composable list \<Rightarrow> error + composable" where
  "CompositeAnalyzer_init components =
     (let its = extend_items [] components
      in if list_ex is_Tokenizer (tl its) then Inl CompositionError
         else Inr (CompositeAnalyzer its))"

text \<open>\<open>Composable.__or__\<close>, the operator \<open>self | other\<close>.\<close>

definition composable_or :: "composable \<Rightarrow> operand \<Rightarrow> error + composable" where
  "composable_or self other =
     (case other of
        NotComposable \<Rightarrow> Inl TypeError
      | Obj c \<Rightarrow> CompositeAnalyzer_init [self, c])"

text \<open>
  \<open>then_or r other\<close> is \<open>r | other\<close> where \<open>r\<close> is itself the outcome of an earlier
  composition: an exception raised there propagates.
\<close>

definition then_or :: "error + composable \<Rightarrow> composable \<Rightarrow> error + composable" where
  "then_or r other = (case r of Inl e \<Rightarrow> Inl e | Inr c \<Rightarrow> composable_or c (Obj other))"

definition or_then :: "composable \<Rightarrow> error + composable \<Rightarrow> error + composable" where
  "or_then self r = (case r of Inl e \<Rightarrow> Inl e | Inr c \<Rightarrow> composable_or self (Obj c))"

section \<open>Tokenizers\<close>

text \<open>
  Every tokenizer creates one \<open>Token\<close> and yields it again and again, assigning its
  attributes before each \<open>yield\<close>. The loops below thread that object: an attribute a
  loop does not assign keeps the value it had.
\<close>

text \<open>\<open>IDTokenizer.__call__\<close>.\<close>

definition IDTokenizer_call :: "string \<Rightarrow> options \<Rightarrow> stream" where
  "IDTokenizer_call v kw =
     (let t = new_token kw;
          t = t\<lparr>text := v, boost := 1\<rparr>;
          t = (if kw_keep_original kw then t\<lparr>original_text := v\<rparr> else t);
          t = (if kw_positions kw then t\<lparr>pos := kw_start_pos kw + 1\<rparr> else t);
          t = (if kw_chars kw
               then t\<lparr>start_char := kw_start_char kw, end_char := kw_start_char kw + len v\<rparr>
               else t)
      in yield t empty_stream)"

text \<open>
  The branch \<open>if not tokenize\<close>, written out alike in \<open>RegexTokenizer.__call__\<close> and
  \<open>CharsetTokenizer.__call__\<close>: the whole value as one token.
\<close>

definition untokenized :: "string \<Rightarrow> options \<Rightarrow> stream" where
  "untokenized v kw =
     (let t = new_token kw;
          t = t\<lparr>original_text := v, text := v, boost := 1\<rparr>;
          t = (if kw_positions kw then t\<lparr>pos := kw_start_pos kw\<rparr> else t);
          t = (if kw_chars kw
               then t\<lparr>start_char := kw_start_char kw, end_char := kw_start_char kw + len v\<rparr>
               else t)
      in yield t empty_stream)"

text \<open>
  \<open>RegexTokenizer.__call__\<close>, the branch \<open>elif not self.gaps\<close>: the loop over
  \<open>enumerate(self.expression.finditer(value))\<close>, \<open>n\<close> being the loop's \<open>pos\<close>.
  Under \<open>if chars\<close> the source assigns \<open>t.start_char\<close> twice and \<open>t.end_char\<close> not
  at all.
\<close>

fun regex_tokens :: "options \<Rightarrow> string \<Rightarrow> Token \<Rightarrow> int \<Rightarrow> (nat \<times> nat) list \<Rightarrow> Token list" where
  "regex_tokens kw v t n [] = []"
| "regex_tokens kw v t n ((ms, me) # matches) =
     (let t = t\<lparr>text := take (me - ms) (drop ms v), boost := 1\<rparr>;
          t = (if kw_keep_original kw then t\<lparr>original_text := text t\<rparr> else t);
          t = t\<lparr>stopped := False\<rparr>;
          t = (if kw_positions kw then t\<lparr>pos := kw_start_pos kw + n\<rparr> else t);
          t = (if kw_chars kw
               then (t\<lparr>start_char := kw_start_char kw + int ms\<rparr>)
                      \<lparr>start_char := kw_start_char kw + int me\<rparr>
               else t)
      in t # regex_tokens kw v t (n + 1) matches)"

text \<open>
  The branch \<open>else\<close> (\<open>gaps=True\<close>): the text between the matches, then what is left
  after the last one. \<open>p\<close> is the loop's \<open>pos\<close>.
\<close>

fun gap_tokens :: "options \<Rightarrow> string \<Rightarrow> Token \<Rightarrow> nat \<Rightarrow> int \<Rightarrow> (nat \<times> nat) list \<Rightarrow> Token list" where
  "gap_tokens kw v t prevend p [] =
     (if prevend < length v
      then (let t = t\<lparr>text := drop prevend v, boost := 1\<rparr>;
                t = (if kw_keep_original kw then t\<lparr>original_text := text t\<rparr> else t);
                t = t\<lparr>stopped := False\<rparr>;
                t = (if kw_positions kw then t\<lparr>pos := p\<rparr> else t);
                t = (if kw_chars kw then t\<lparr>start_char := int prevend, end_char := len v\<rparr> else t)
            in [t])
      else [])"
| "gap_tokens kw v t prevend p ((ms, me) # matches) =
     (let txt = take (ms - prevend) (drop prevend v)
      in if txt \<noteq> []
         then (let t = t\<lparr>text := txt, boost := 1\<rparr>;
                   t = (if kw_keep_original kw then t\<lparr>original_text := text t\<rparr> else t);
                   t = t\<lparr>stopped := False\<rparr>;
                   t = (if kw_positions kw then t\<lparr>pos := p\<rparr> else t);
                   p = (if kw_positions kw then p + 1 else p);
                   t = (if kw_chars kw
                        then t\<lparr>start_char := kw_start_char kw + int prevend,
                               end_char := kw_start_char kw + int ms\<rparr>
                        else t)
               in t # gap_tokens kw v t me p matches)
         else gap_tokens kw v t me p matches)"

definition RegexTokenizer_call :: "compiled \<Rightarrow> bool \<Rightarrow> string \<Rightarrow> options \<Rightarrow> stream" where
  "RegexTokenizer_call expression gaps v kw =
     (if \<not> kw_tokenize kw then untokenized v kw
      else if \<not> gaps
      then \<lparr>yielded = regex_tokens kw v (new_token kw) 0 (finditer expression v), raised = None\<rparr>
      else \<lparr>yielded = gap_tokens kw v (new_token kw) 0 (kw_start_pos kw) (finditer expression v),
            raised = None\<rparr>)"

text \<open>
  \<open>CharsetTokenizer.__call__\<close>, the branch \<open>else\<close>: the loop \<open>for char in value\<close>
  with its variables \<open>text\<close> (here \<open>txt\<close>), \<open>pos\<close>, \<open>start\<close> and \<open>current\<close>, then
  the statement after the loop. \<open>char_map[ord(char)]\<close> raises \<open>KeyError\<close> on a missing
  key. After the loop the source takes the token's text from \<open>value[start:current]\<close>.
\<close>

fun charset_loop ::
  "char_map \<Rightarrow> options \<Rightarrow> string \<Rightarrow> string \<Rightarrow> Token \<Rightarrow> string \<Rightarrow> int \<Rightarrow> int \<Rightarrow> int \<Rightarrow> stream" where
  "charset_loop cm kw v [] t txt p start current =
     (if current > start
      then (let t = t\<lparr>text := py_slice v start current, boost := 1\<rparr>;
                t = (if kw_keep_original kw then t\<lparr>original_text := text t\<rparr> else t);
                t = (if kw_positions kw then t\<lparr>pos := p\<rparr> else t);
                t = (if kw_chars kw then t\<lparr>start_char := start, end_char := current\<rparr> else t)
            in yield t empty_stream)
      else empty_stream)"
| "charset_loop cm kw v (c # cs) t txt p start current =
     (case cm c of
        None \<Rightarrow> \<lparr>yielded = [], raised = Some KeyError\<rparr>
      | Some tchar \<Rightarrow>
          if tchar \<noteq> [] then charset_loop cm kw v cs t (txt @ tchar) p start (current + 1)
          else if current > start
          then (let t = t\<lparr>text := txt, boost := 1\<rparr>;
                    t = (if kw_keep_original kw then t\<lparr>original_text := text t\<rparr> else t);
                    t = (if kw_positions kw then t\<lparr>pos := p\<rparr> else t);
                    p = (if kw_positions kw then p + 1 else p);
                    t = (if kw_chars kw then t\<lparr>start_char := start, end_char := current\<rparr> else t)
                in yield t (charset_loop cm kw v cs t [] p (current + 1) (current + 1)))
          else charset_loop cm kw v cs t [] p (current + 1) (current + 1))"

definition CharsetTokenizer_call :: "char_map \<Rightarrow> string \<Rightarrow> options \<Rightarrow> stream" where
  "CharsetTokenizer_call cm v kw =
     (if \<not> kw_tokenize kw then untokenized v kw
      else charset_loop cm kw v v (new_token kw) [] (kw_start_pos kw)
             (kw_start_char kw) (kw_start_char kw))"

text \<open>
  \<open>PathTokenizer.__call__\<close>: one token per match, its text the value up to the end of
  the match. Its signature names \<open>positions\<close> and \<open>start_pos\<close> only, and the token is
  made by \<open>Token(positions, **kwargs)\<close>: of the other keyword arguments \<open>chars\<close>,
  \<open>remove_stopwords\<close> and \<open>mode\<close> are parameters of \<open>Token.__init__\<close>, and
  \<open>start_char\<close> is stored by \<open>__dict__.update\<close> over the attribute of that name
  (\<open>keep_original\<close> and \<open>tokenize\<close> name no attribute the model keeps).
\<close>

fun path_tokens :: "options \<Rightarrow> string \<Rightarrow> Token \<Rightarrow> int \<Rightarrow> (nat \<times> nat) list \<Rightarrow> Token list" where
  "path_tokens kw v t p [] = []"
| "path_tokens kw v t p ((ms, me) # matches) =
     (let t = t\<lparr>text := take me v\<rparr>;
          t = (if kw_positions kw then t\<lparr>pos := p\<rparr> else t);
          p = (if kw_positions kw then p + 1 else p)
      in t # path_tokens kw v t p matches)"

definition PathTokenizer_call :: "compiled \<Rightarrow> string \<Rightarrow> options \<Rightarrow> stream" where
  "PathTokenizer_call expr v kw =
     \<lparr>yielded = path_tokens kw v ((new_token kw)\<lparr>start_char := kw_start_char kw\<rparr>)
                  (kw_start_pos kw) (finditer expr v),
      raised = None\<rparr>"

fun tokenizer_call :: "tokenizer \<Rightarrow> string \<Rightarrow> options \<Rightarrow> stream" where
  "tokenizer_call IDTokenizer v kw = IDTokenizer_call v kw"
| "tokenizer_call (RegexTokenizer expression gaps) v kw = RegexTokenizer_call expression gaps v kw"
| "tokenizer_call (CharsetTokenizer cm) v kw = CharsetTokenizer_call cm v kw"
| "tokenizer_call (PathTokenizer expr) v kw = PathTokenizer_call expr v kw"

section \<open>Filters\<close>

text \<open>
  A filter written as a generator (\<open>for t in tokens: ... yield t\<close>) yields its tokens
  as its input yields them and ends as its input ends.
\<close>

definition each_token :: "(Token \<Rightarrow> Token) \<Rightarrow> stream \<Rightarrow> stream" where
  "each_token f s = s\<lparr>yielded := map f (yielded s)\<rparr>"

text \<open>\<open>STOP_WORDS\<close> of \<open>filters.py\<close>, the default stop list.\<close>

definition STOP_WORDS :: "string set" where
  "STOP_WORDS =
     {''a'', ''an'', ''and'', ''are'', ''as'', ''at'', ''be'', ''by'', ''can'',
      ''for'', ''from'', ''have'', ''if'', ''in'', ''is'', ''it'', ''may'',
      ''not'', ''of'', ''on'', ''or'', ''tbd'', ''that'', ''the'', ''this'',
      ''to'', ''us'', ''we'', ''when'', ''will'', ''with'', ''yet'',
      ''you'', ''your''}"

text \<open>
  \<open>StopFilter.__call__\<close>: the loop with its variable \<open>pos\<close> (here \<open>p\<close>, \<open>None\<close>
  until the first token that is kept).
\<close>

fun stop_loop ::
  "string set \<Rightarrow> int \<Rightarrow> int option \<Rightarrow> bool \<Rightarrow> int option \<Rightarrow> Token list \<Rightarrow> Token list" where
  "stop_loop stop_list minsize maxsize renumber p [] = []"
| "stop_loop stop_list minsize maxsize renumber p (t # ts) =
     (if len (text t) \<ge> minsize
         \<and> (case maxsize of None \<Rightarrow> True | Some m \<Rightarrow> len (text t) \<le> m)
         \<and> text t \<notin> stop_list
      then (let (p, t) =
                  (if renumber \<and> positions t
                   then (case p of
                           None \<Rightarrow> (Some (pos t), t)
                         | Some q \<Rightarrow> (Some (q + 1), t\<lparr>pos := q + 1\<rparr>))
                   else (p, t));
                t = t\<lparr>stopped := False\<rparr>
            in t # stop_loop stop_list minsize maxsize renumber p ts)
      else if \<not> remove_stopwords t
      then t\<lparr>stopped := True\<rparr> # stop_loop stop_list minsize maxsize renumber p ts
      else stop_loop stop_list minsize maxsize renumber p ts)"

definition StopFilter_call ::
  "string set \<Rightarrow> int \<Rightarrow> int option \<Rightarrow> bool \<Rightarrow> stream \<Rightarrow> stream" where
  "StopFilter_call stop_list minsize maxsize renumber tokens =
     tokens\<lparr>yielded := stop_loop stop_list minsize maxsize renumber None (yielded tokens)\<rparr>"

text \<open>\<open>str.translate\<close> with a character map: a code point without an entry stays.\<close>

definition translate :: "char_map \<Rightarrow> string \<Rightarrow> string" where
  "translate cm s = concat (map (\<lambda>c. case cm c of None \<Rightarrow> [c] | Some r \<Rightarrow> r) s)"

text \<open>The loop body of \<open>StemFilter.__call__\<close>.\<close>

definition stem_token :: "string set \<Rightarrow> (string \<Rightarrow> string) \<Rightarrow> Token \<Rightarrow> Token" where
  "stem_token ignore stem t =
     (if \<not> stopped t then (if text t \<notin> ignore then t\<lparr>text := stem (text t)\<rparr> else t) else t)"

text \<open>
  The built-in \<open>next\<close> on a generator, \<open>itertools.chain\<close> of a list and a generator, and
  \<open>dict.get\<close> on the keyword arguments of a \<open>MultiFilter\<close>.
\<close>

definition next_token :: "stream \<Rightarrow> error + Token \<times> stream" where
  "next_token tokens =
     (case yielded tokens of
        [] \<Rightarrow> (case raised tokens of None \<Rightarrow> Inl StopIteration | Some e \<Rightarrow> Inl e)
      | t # ts \<Rightarrow> Inr (t, tokens\<lparr>yielded := ts\<rparr>))"

definition chain :: "Token list \<Rightarrow> stream \<Rightarrow> stream" where
  "chain ts tokens = tokens\<lparr>yielded := ts @ yielded tokens\<rparr>"

definition default_filter :: filter where
  "default_filter = PassFilter"

definition filters_get :: "(string \<times> filter) list \<Rightarrow> string \<Rightarrow> filter \<Rightarrow> filter" where
  "filters_get filters k d = (case map_of filters k of None \<Rightarrow> d | Some f \<Rightarrow> f)"

lemma size_map_of:
  "map_of filters k = Some f \<Longrightarrow> size f < Suc (size_list (size_prod (\<lambda>_. 0) size) filters)"
  by (induction filters) (auto split: if_splits)

lemma size_filters_get:
  "size (filters_get filters k default_filter) < Suc (size_list (size_prod (\<lambda>_. 0) size) filters)"
  by (auto simp: filters_get_def default_filter_def split: option.splits dest: size_map_of)

text \<open>
  \<open>__call__\<close> of each filter class. \<open>Inl\<close> is an exception raised by the call itself:
  only \<open>MultiFilter.__call__\<close>, an ordinary function, runs code when it is called.
\<close>

function filter_call :: "filter \<Rightarrow> stream \<Rightarrow> error + stream" where
  "filter_call PassFilter tokens = Inr tokens"
| "filter_call LoggingFilter tokens = Inr (each_token (\<lambda>t. t) tokens)"
| "filter_call (MultiFilter filters) tokens =
     (case next_token tokens of
        Inl e \<Rightarrow> Inl e
      | Inr (t, tokens') \<Rightarrow>
          filter_call (filters_get filters (mode t) default_filter) (chain [t] tokens'))"
| "filter_call LowercaseFilter tokens = Inr (each_token (\<lambda>t. t\<lparr>text := py_lower (text t)\<rparr>) tokens)"
| "filter_call StripFilter tokens = Inr (each_token (\<lambda>t. t\<lparr>text := py_strip (text t)\<rparr>) tokens)"
| "filter_call (StopFilter stops minsize maxsize renumber) tokens =
     Inr (StopFilter_call stops minsize maxsize renumber tokens)"
| "filter_call (CharsetFilter cm) tokens =
     Inr (each_token (\<lambda>t. t\<lparr>text := translate cm (text t)\<rparr>) tokens)"
| "filter_call (StemFilter lang ignore stem) tokens = Inr (each_token (stem_token ignore stem) tokens)"
  by pat_completeness auto
termination
  by (relation "measure (\<lambda>(f, tokens). size f)") (auto simp: size_filters_get)

section \<open>Running a pipeline\<close>

text \<open>
  \<open>CompositeAnalyzer.__call__\<close>: \<open>items[0]\<close> is called with the value and the keyword
  arguments, then each of \<open>items[1:]\<close> with the generator so far, a morphological item
  being skipped under \<open>no_morph\<close>. The model covers the pipelines of the data model, a
  tokenizer followed by filters; on any other item list the result is \<open>None\<close>.
\<close>

fun run_filters :: "bool \<Rightarrow> composable list \<Rightarrow> stream \<Rightarrow> (error + stream) option" where
  "run_filters no_morph [] gen = Some (Inr gen)"
| "run_filters no_morph (Fil f # its) gen =
     (if \<not> (no_morph \<and> is_morph (Fil f))
      then (case filter_call f gen of
              Inl e \<Rightarrow> Some (Inl e)
            | Inr gen' \<Rightarrow> run_filters no_morph its gen')
      else run_filters no_morph its gen)"
| "run_filters no_morph (_ # its) gen = None"

fun CompositeAnalyzer_call ::
  "composable list \<Rightarrow> string \<Rightarrow> bool \<Rightarrow> options \<Rightarrow> (error + stream) option" where
  "CompositeAnalyzer_call (Tok tk # its) v no_morph kw =
     run_filters no_morph its (tokenizer_call tk v kw)"
| "CompositeAnalyzer_call _ v no_morph kw = None"

text \<open>
  Calling a composable object: a pipeline, or a tokenizer on its own. \<open>texts\<close> is the
  list comprehension \<open>[token.text for token in ana(value)]\<close>, which iterates the
  generator to its end.
\<close>

fun call :: "composable \<Rightarrow> string \<Rightarrow> bool \<Rightarrow> options \<Rightarrow> (error + stream) option" where
  "call (CompositeAnalyzer its) v no_morph kw = CompositeAnalyzer_call its v no_morph kw"
| "call (Tok tk) v no_morph kw = Some (Inr (tokenizer_call tk v kw))"
| "call (Fil f) v no_morph kw = None"

fun texts :: "(error + stream) option \<Rightarrow> (error + string list) option" where
  "texts None = None"
| "texts (Some (Inl e)) = Some (Inl e)"
| "texts (Some (Inr gen)) =
     (case raised gen of None \<Rightarrow> Some (Inr (map text (yielded gen))) | Some e \<Rightarrow> Some (Inl e))"

section \<open>Analyzer presets\<close>

text \<open>\<open>SimpleAnalyzer\<close> of \<open>analyzers.py\<close>.\<close>

definition SimpleAnalyzer :: "compiled \<Rightarrow> bool \<Rightarrow> error + composable" where
  "SimpleAnalyzer expression gaps =
     composable_or (Tok (RegexTokenizer expression gaps)) (Obj (Fil LowercaseFilter))"

section \<open>Equality\<close>

text \<open>
  The \<open>__eq__\<close> methods. \<open>Tokenizer.__eq__\<close> (inherited by \<open>IDTokenizer\<close> and
  \<open>PathTokenizer\<close>) compares the classes; \<open>RegexTokenizer.__eq__\<close> the classes and
  \<open>expression.pattern\<close>; \<open>CharsetTokenizer.__eq__\<close> the classes and \<open>char_map\<close>.
\<close>

fun tokenizer_eq :: "tokenizer \<Rightarrow> tokenizer \<Rightarrow> bool" where
  "tokenizer_eq IDTokenizer IDTokenizer = True"
| "tokenizer_eq (RegexTokenizer expression gaps) (RegexTokenizer expression' gaps') =
     (pattern expression = pattern expression')"
| "tokenizer_eq (CharsetTokenizer cm) (CharsetTokenizer cm') = (cm = cm')"
| "tokenizer_eq (PathTokenizer expr) (PathTokenizer expr') = True"
| "tokenizer_eq _ _ = False"

text \<open>
  \<open>Filter.__eq__\<close> compares the classes and the instance dictionaries;
  \<open>MultiFilter.__eq__\<close> the classes and \<open>filters\<close> (two dictionaries are equal when
  they have as many keys and each key of the one has an equal value in the other);
  \<open>StopFilter.__eq__\<close> the classes, \<open>stops\<close>, \<open>min\<close> and \<open>renumber\<close>;
  \<open>CharsetFilter.__eq__\<close> the classes and \<open>char_map\<close>. Two stemmers count as equal
  when they compute the same function.
\<close>

fun filter_eq :: "filter \<Rightarrow> filter \<Rightarrow> bool" where
  "filter_eq PassFilter PassFilter = True"
| "filter_eq LoggingFilter LoggingFilter = True"
| "filter_eq (MultiFilter filters) (MultiFilter filters') =
     (length filters = length filters'
      \<and> (\<forall>kf \<in> set filters.
            case map_of filters' (fst kf) of None \<Rightarrow> False | Some f' \<Rightarrow> filter_eq (snd kf) f'))"
| "filter_eq LowercaseFilter LowercaseFilter = True"
| "filter_eq StripFilter StripFilter = True"
| "filter_eq (StopFilter stops minsize maxsize renumber) (StopFilter stops' minsize' maxsize' renumber') =
     (stops = stops' \<and> minsize = minsize' \<and> renumber = renumber')"
| "filter_eq (CharsetFilter cm) (CharsetFilter cm') = (cm = cm')"
| "filter_eq (StemFilter lang ignore stem) (StemFilter lang' ignore' stem') =
     (lang = lang' \<and> ignore = ignore' \<and> stem = stem')"
| "filter_eq _ _ = False"

text \<open>
  \<open>CompositeAnalyzer.__eq__\<close>: \<open>other and self.__class__ is other.__class__ and
  self.items == other.items\<close>, the lists compared item by item with \<open>==\<close>. An analyzer
  defines \<open>__len__\<close>, so \<open>other\<close> is true when it has an item.
\<close>

fun composable_eq :: "composable \<Rightarrow> composable \<Rightarrow> bool" where
  "composable_eq (Tok a) (Tok b) = tokenizer_eq a b"
| "composable_eq (Fil a) (Fil b) = filter_eq a b"
| "composable_eq (CompositeAnalyzer its) (CompositeAnalyzer its') =
     (its' \<noteq> [] \<and> list_all2 composable_eq its its')"
| "composable_eq _ _ = False"

section \<open>Notions used to state the properties\<close>

text \<open>
  The flattened stage list a composable object contributes to a composition: its items
  if it is a pipeline, itself otherwise.
\<close>

fun stages_of :: "composable \<Rightarrow> composable list" where
  "stages_of (CompositeAnalyzer its) = its"
| "stages_of c = [c]"

fun is_Filter :: "composable \<Rightarrow> bool" where
  "is_Filter (Fil _) = True"
| "is_Filter _ = False"

text \<open>
  The stop-word decision in the specification's words: a token is stopped if its text
  length is below the minimum, above the maximum (when set), or its text is in the stop
  set. \<open>spec_stop_token\<close> is what the specification asks of the filter for one token:
  nothing, or the token with its \<open>stopped\<close> flag set.
\<close>

definition spec_stopped :: "string set \<Rightarrow> int \<Rightarrow> int option \<Rightarrow> Token \<Rightarrow> bool" where
  "spec_stopped stop_list minsize maxsize t \<longleftrightarrow>
     len (text t) < minsize \<or> (\<exists>m. maxsize = Some m \<and> len (text t) > m) \<or> text t \<in> stop_list"

definition spec_stop_token :: "string set \<Rightarrow> int \<Rightarrow> int option \<Rightarrow> Token \<Rightarrow> Token list" where
  "spec_stop_token stop_list minsize maxsize t =
     (if spec_stopped stop_list minsize maxsize t
      then (if remove_stopwords t then [] else [t\<lparr>stopped := True\<rparr>])
      else [t\<lparr>stopped := False\<rparr>])"

text \<open>
  A total character map for examples: a word character is folded to lower case, any
  other character is a break.
\<close>

definition folding_map :: char_map where
  "folding_map c = (if py_isword c then Some [py_lower_char c] else Some [])"

text \<open>
  \<open>analyze r v kw\<close> is \<open>[token.text for token in ana(v, **kw)]\<close> where \<open>ana\<close> is the
  outcome \<open>r\<close> of building an analyzer.
\<close>

definition analyze :: "error + composable \<Rightarrow> string \<Rightarrow> options \<Rightarrow> (error + string list) option" where
  "analyze r v kw = (case r of Inl e \<Rightarrow> Some (Inl e) | Inr ana \<Rightarrow> texts (call ana v False kw))"

section \<open>Composition: errors, flattening, associativity\<close>

lemma extend_items_append:
  "extend_items acc components = acc @ concat (map stages_of components)"
  by (induction acc components rule: extend_items.induct) simp_all

lemma CompositeAnalyzer_init_pair:
  "CompositeAnalyzer_init [a, b] =
     (if list_ex is_Tokenizer (tl (stages_of a @ stages_of b)) then Inl CompositionError
      else Inr (CompositeAnalyzer (stages_of a @ stages_of b)))"
  by (simp add: CompositeAnalyzer_init_def extend_items_append)

lemma list_ex_tl_nth:
  "list_ex P (tl xs) \<longleftrightarrow> (\<exists>i. 0 < i \<and> i < length xs \<and> P (xs ! i))"
proof (cases xs)
  case Nil
  then show ?thesis by simp
next
  case (Cons x ys)
  have "(\<exists>i. 0 < i \<and> i < Suc (length ys) \<and> P ((x # ys) ! i)) \<longleftrightarrow> (\<exists>k < length ys. P (ys ! k))"
  proof
    assume "\<exists>i. 0 < i \<and> i < Suc (length ys) \<and> P ((x # ys) ! i)"
    then obtain i where i: "0 < i" "i < Suc (length ys)" "P ((x # ys) ! i)" by blast
    then obtain k where "i = Suc k" by (cases i) auto
    with i show "\<exists>k < length ys. P (ys ! k)" by auto
  next
    assume "\<exists>k < length ys. P (ys ! k)"
    then obtain k where "k < length ys" "P (ys ! k)" by blast
    then have "0 < Suc k \<and> Suc k < Suc (length ys) \<and> P ((x # ys) ! Suc k)" by simp
    then show "\<exists>i. 0 < i \<and> i < Suc (length ys) \<and> P ((x # ys) ! i)" by blast
  qed
  with Cons show ?thesis
    by (simp add: list_ex_length)
qed

lemma stages_of_stage: "\<not> is_CompositeAnalyzer c \<Longrightarrow> stages_of c = [c]"
  by (cases c) simp_all

text \<open>
  Claim C1, as the code has it. The operator \<open>self | other\<close> fails in exactly two
  situations: with \<open>TypeError\<close> when the right-hand operand is not a \<open>Composable\<close>, and
  with \<open>CompositionError\<close> when the flattened stage list (the stages of \<open>self\<close> followed
  by those of \<open>other\<close>) has a tokenizer at a position other than 0. In every other case
  it returns the pipeline over that flattened list.
\<close>

theorem composition_failures:
  "composable_or self other =
     (case other of
        NotComposable \<Rightarrow> Inl TypeError
      | Obj c \<Rightarrow>
          if \<exists>i. 0 < i \<and> i < length (stages_of self @ stages_of c)
                 \<and> is_Tokenizer ((stages_of self @ stages_of c) ! i)
          then Inl CompositionError
          else Inr (CompositeAnalyzer (stages_of self @ stages_of c)))"
  by (simp add: composable_or_def CompositeAnalyzer_init_pair list_ex_tl_nth split: operand.split)

text \<open>
  The theorem at a filter composed before a tokenizer: position 1 holds a tokenizer.
\<close>

theorem composition_failures_witness:
  "composable_or (Fil LowercaseFilter) (Obj (Tok IDTokenizer)) = Inl CompositionError"
proof -
  have "0 < (1::nat) \<and> (1::nat) < length [Fil LowercaseFilter, Tok IDTokenizer]
          \<and> is_Tokenizer ([Fil LowercaseFilter, Tok IDTokenizer] ! 1)"
    by simp
  then have "\<exists>i. 0 < i \<and> i < length [Fil LowercaseFilter, Tok IDTokenizer]
          \<and> is_Tokenizer ([Fil LowercaseFilter, Tok IDTokenizer] ! i)"
    by blast
  with composition_failures [of "Fil LowercaseFilter" "Obj (Tok IDTokenizer)"]
  show ?thesis
    by simp
qed

text \<open>
  Claim C1 as stated fails: composing a tokenizer with an object that is not a
  \<open>Composable\<close> raises \<open>TypeError\<close>, not \<open>CompositionError\<close>.
\<close>

theorem composition_not_composable_counterexample:
  "composable_or (Tok (RegexTokenizer default_pattern False)) NotComposable = Inl TypeError
   \<and> composable_or (Tok (RegexTokenizer default_pattern False)) NotComposable
       \<noteq> Inl CompositionError"
  by (simp add: composable_or_def)

text \<open>
  Composition is associative on all composable objects, pipelines included: both
  groupings fail alike or give the same pipeline.
\<close>

lemma composition_associative_any:
  "then_or (composable_or A (Obj B)) C = or_then A (composable_or B (Obj C))"
  apply (simp add: then_or_def or_then_def composable_or_def CompositeAnalyzer_init_pair)
  apply (cases "stages_of A"; cases "stages_of B"; cases "stages_of C")
         apply auto
  done

text \<open>
  Claim C2 as stated fails: not all stages compose into a pipeline. With a tokenizer in
  second place, \<open>(A | B) | C\<close> and \<open>A | (B | C)\<close> both raise \<open>CompositionError\<close>,
  and neither produces the pipeline over \<open>[A, B, C]\<close>.
\<close>

theorem composition_second_tokenizer_counterexample:
  "then_or (composable_or (Tok IDTokenizer) (Obj (Tok IDTokenizer))) (Fil PassFilter)
     = Inl CompositionError
   \<and> or_then (Tok IDTokenizer) (composable_or (Tok IDTokenizer) (Obj (Fil PassFilter)))
     = Inl CompositionError
   \<and> then_or (composable_or (Tok IDTokenizer) (Obj (Tok IDTokenizer))) (Fil PassFilter)
     \<noteq> Inr (CompositeAnalyzer [Tok IDTokenizer, Tok IDTokenizer, Fil PassFilter])"
  by (simp add: then_or_def or_then_def composable_or_def CompositeAnalyzer_init_def)

text \<open>
  Claim C2, as the code has it. For all stages \<open>A\<close>, \<open>B\<close>, \<open>C\<close> (objects that are
  not pipelines), \<open>(A | B) | C\<close>, which is also how Python reads \<open>A | B | C\<close>, and
  \<open>A | (B | C)\<close> have the same outcome. When neither \<open>B\<close> nor \<open>C\<close> is a tokenizer,
  that outcome is the pipeline whose item list is the flat sequence \<open>[A, B, C]\<close>, none
  of its items a pipeline; when \<open>B\<close> or \<open>C\<close> is a tokenizer, it is
  \<open>CompositionError\<close> under both groupings.
\<close>

theorem composition_associative:
  assumes "\<not> is_CompositeAnalyzer A" and "\<not> is_CompositeAnalyzer B"
    and "\<not> is_CompositeAnalyzer C"
  shows "then_or (composable_or A (Obj B)) C = or_then A (composable_or B (Obj C))
       \<and> then_or (composable_or A (Obj B)) C =
           (if is_Tokenizer B \<or> is_Tokenizer C then Inl CompositionError
            else Inr (CompositeAnalyzer [A, B, C]))
       \<and> list_all (\<lambda>c. \<not> is_CompositeAnalyzer c) [A, B, C]"
proof -
  have s: "stages_of A = [A]" "stages_of B = [B]" "stages_of C = [C]"
    using assms by (simp_all add: stages_of_stage)
  have "then_or (composable_or A (Obj B)) C =
          (if is_Tokenizer B \<or> is_Tokenizer C then Inl CompositionError
           else Inr (CompositeAnalyzer [A, B, C]))"
    by (simp add: then_or_def composable_or_def CompositeAnalyzer_init_pair s)
  moreover have "or_then A (composable_or B (Obj C)) =
          (if is_Tokenizer B \<or> is_Tokenizer C then Inl CompositionError
           else Inr (CompositeAnalyzer [A, B, C]))"
    by (simp add: or_then_def composable_or_def CompositeAnalyzer_init_pair s)
  ultimately show ?thesis
    using assms by simp
qed

theorem composition_associative_witness:
  "then_or (composable_or (Tok IDTokenizer) (Obj (Fil LowercaseFilter))) (Fil StripFilter)
     = Inr (CompositeAnalyzer [Tok IDTokenizer, Fil LowercaseFilter, Fil StripFilter])
   \<and> or_then (Tok IDTokenizer) (composable_or (Fil LowercaseFilter) (Obj (Fil StripFilter)))
     = Inr (CompositeAnalyzer [Tok IDTokenizer, Fil LowercaseFilter, Fil StripFilter])"
proof -
  have h: "\<not> is_CompositeAnalyzer (Tok IDTokenizer)"
    "\<not> is_CompositeAnalyzer (Fil LowercaseFilter)" "\<not> is_CompositeAnalyzer (Fil StripFilter)"
    by simp_all
  note c = composition_associative [OF h]
  have a: "then_or (composable_or (Tok IDTokenizer) (Obj (Fil LowercaseFilter))) (Fil StripFilter)
             = or_then (Tok IDTokenizer) (composable_or (Fil LowercaseFilter) (Obj (Fil StripFilter)))"
    by (rule c [THEN conjunct1])
  have b: "then_or (composable_or (Tok IDTokenizer) (Obj (Fil LowercaseFilter))) (Fil StripFilter)
             = Inr (CompositeAnalyzer [Tok IDTokenizer, Fil LowercaseFilter, Fil StripFilter])"
    using c [THEN conjunct2, THEN conjunct1] by simp
  show ?thesis
  proof (intro conjI)
    show "then_or (composable_or (Tok IDTokenizer) (Obj (Fil LowercaseFilter))) (Fil StripFilter)
            = Inr (CompositeAnalyzer [Tok IDTokenizer, Fil LowercaseFilter, Fil StripFilter])"
      by (rule b)
    show "or_then (Tok IDTokenizer) (composable_or (Fil LowercaseFilter) (Obj (Fil StripFilter)))
            = Inr (CompositeAnalyzer [Tok IDTokenizer, Fil LowercaseFilter, Fil StripFilter])"
      by (rule trans [OF a [symmetric] b])
  qed
qed

section \<open>The multi-mode filter\<close>

lemma chain_next_token:
  "next_token tokens = Inr (t, rest) \<Longrightarrow> chain [t] rest = tokens"
  by (auto simp: next_token_def chain_def split: list.splits option.splits)

text \<open>
  Claim C3. On a non-empty token stream \<open>MultiFilter\<close> takes exactly the first token
  off the stream, selects the sub-filter registered for that token's mode (the
  pass-through default when the mode has none), and its result is that of the selected
  sub-filter applied to the whole original stream, the first token put back in front.
  The equation holds for every non-empty stream, so in particular for those whose tokens
  all carry one mode.
\<close>

theorem MultiFilter_dispatch:
  assumes "yielded tokens = t # ts"
  shows "next_token tokens = Inr (t, tokens\<lparr>yielded := ts\<rparr>)
       \<and> chain [t] (tokens\<lparr>yielded := ts\<rparr>) = tokens
       \<and> filter_call (MultiFilter filters) tokens =
           filter_call (case map_of filters (mode t) of None \<Rightarrow> PassFilter | Some f \<Rightarrow> f) tokens"
proof -
  have n: "next_token tokens = Inr (t, tokens\<lparr>yielded := ts\<rparr>)"
    using assms by (simp add: next_token_def)
  from chain_next_token [OF n] n show ?thesis
    by (simp add: filters_get_def default_filter_def)
qed

text \<open>
  The theorem on a two-token stream of mode \<open>a\<close>, with the lowercase filter registered
  for \<open>a\<close>: the whole stream comes out in lower case.
\<close>

theorem MultiFilter_dispatch_witness:
  "filter_call (MultiFilter [(''a'', LowercaseFilter), (''b'', PassFilter)])
     \<lparr>yielded = [(Token_init False False True ''a'')\<lparr>text := ''ALFA''\<rparr>,
                  (Token_init False False True ''a'')\<lparr>text := ''BRAVO''\<rparr>],
      raised = None\<rparr>
   = Inr \<lparr>yielded = [(Token_init False False True ''a'')\<lparr>text := ''alfa''\<rparr>,
                       (Token_init False False True ''a'')\<lparr>text := ''bravo''\<rparr>],
          raised = None\<rparr>"
proof -
  let ?t = "(Token_init False False True ''a'')\<lparr>text := ''ALFA''\<rparr>"
  let ?u = "(Token_init False False True ''a'')\<lparr>text := ''BRAVO''\<rparr>"
  have y: "yielded \<lparr>yielded = [?t, ?u], raised = None\<rparr> = ?t # [?u]"
    by simp
  have m: "mode ?t = ''a''"
    by (simp add: Token_init_def)
  have l: "py_lower ''ALFA'' = ''alfa''" "py_lower ''BRAVO'' = ''bravo''"
    by code_simp+
  from MultiFilter_dispatch [OF y, of "[(''a'', LowercaseFilter), (''b'', PassFilter)]"]
  have "filter_call (MultiFilter [(''a'', LowercaseFilter), (''b'', PassFilter)])
          \<lparr>yielded = [?t, ?u], raised = None\<rparr>
        = filter_call LowercaseFilter \<lparr>yielded = [?t, ?u], raised = None\<rparr>"
    by (simp only: m) simp
  then show ?thesis
    by (simp add: each_token_def l Token_init_def)
qed

section \<open>The stop-word filter\<close>

lemma kept_iff_not_stopped:
  "(len (text t) \<ge> minsize
      \<and> (case maxsize of None \<Rightarrow> True | Some m \<Rightarrow> len (text t) \<le> m)
      \<and> text t \<notin> stop_list) \<longleftrightarrow> \<not> spec_stopped stop_list minsize maxsize t"
  by (auto simp: spec_stopped_def split: option.splits)

lemma stop_loop_stopped:
  assumes "spec_stopped stop_list minsize maxsize t"
  shows "stop_loop stop_list minsize maxsize renumber p (t # ts) =
           (if remove_stopwords t then [] else [t\<lparr>stopped := True\<rparr>])
           @ stop_loop stop_list minsize maxsize renumber p ts"
  using assms by (simp add: kept_iff_not_stopped)

lemma stop_loop_kept:
  assumes "\<not> spec_stopped stop_list minsize maxsize t"
  shows "\<exists>p' n. stop_loop stop_list minsize maxsize renumber p (t # ts) =
           t\<lparr>pos := n, stopped := False\<rparr> # stop_loop stop_list minsize maxsize renumber p' ts
           \<and> (\<not> renumber \<longrightarrow> n = pos t)"
proof (cases "renumber \<and> positions t")
  case True
  show ?thesis
  proof (cases p)
    case None
    with True assms have "stop_loop stop_list minsize maxsize renumber p (t # ts) =
           t\<lparr>pos := pos t, stopped := False\<rparr>
           # stop_loop stop_list minsize maxsize renumber (Some (pos t)) ts"
      by (simp add: kept_iff_not_stopped)
    with True show ?thesis
      by blast
  next
    case (Some q)
    with True assms have "stop_loop stop_list minsize maxsize renumber p (t # ts) =
           t\<lparr>pos := q + 1, stopped := False\<rparr>
           # stop_loop stop_list minsize maxsize renumber (Some (q + 1)) ts"
      by (simp add: kept_iff_not_stopped)
    with True show ?thesis
      by blast
  qed
next
  case False
  with assms have "stop_loop stop_list minsize maxsize renumber p (t # ts) =
           t\<lparr>pos := pos t, stopped := False\<rparr> # stop_loop stop_list minsize maxsize renumber p ts"
    by (auto simp: kept_iff_not_stopped)
  then show ?thesis
    by blast
qed

lemma stop_loop_spec:
  "list_all2 (\<lambda>out kept. out = kept\<lparr>pos := pos out\<rparr> \<and> (\<not> renumber \<longrightarrow> pos out = pos kept))
     (stop_loop stop_list minsize maxsize renumber p ts)
     (concat (map (spec_stop_token stop_list minsize maxsize) ts))"
proof (induction ts arbitrary: p)
  case Nil
  then show ?case by simp
next
  case (Cons t ts)
  show ?case
  proof (cases "spec_stopped stop_list minsize maxsize t")
    case True
    from Cons.IH [of p] show ?thesis
      by (simp only: stop_loop_stopped [OF True]) (simp add: spec_stop_token_def True)
  next
    case False
    from stop_loop_kept [OF False, of renumber p ts] obtain p' n
      where eq: "stop_loop stop_list minsize maxsize renumber p (t # ts) =
           t\<lparr>pos := n, stopped := False\<rparr> # stop_loop stop_list minsize maxsize renumber p' ts"
        and n: "\<not> renumber \<longrightarrow> n = pos t"
      by blast
    from Cons.IH [of p'] n show ?thesis
      by (simp only: eq) (simp add: spec_stop_token_def False)
  qed
qed

text \<open>
  Claim C4. \<open>StopFilter(stop_list, minsize, maxsize)\<close> treats every token as the
  specification says: the branch that keeps a token is taken exactly when the token is
  not stopped in the specification's sense (text shorter than \<open>minsize\<close>, longer than
  \<open>maxsize\<close> when that is set, or in the stop set); and the tokens it yields are, in
  order, those the specification asks for: each token that is not stopped with
  \<open>stopped = False\<close>, each stopped token with \<open>stopped = True\<close> when its
  \<open>remove_stopwords\<close> flag is false, and no token for a stopped one whose flag is
  true. No other attribute changes, the position under \<open>renumber\<close> apart.
\<close>

theorem StopFilter_decision:
  "((len (text t) \<ge> minsize
       \<and> (case maxsize of None \<Rightarrow> True | Some m \<Rightarrow> len (text t) \<le> m)
       \<and> text t \<notin> stop_list) \<longleftrightarrow> \<not> spec_stopped stop_list minsize maxsize t)
   \<and> list_all2 (\<lambda>out kept. out = kept\<lparr>pos := pos out\<rparr> \<and> (\<not> renumber \<longrightarrow> pos out = pos kept))
       (yielded (StopFilter_call stop_list minsize maxsize renumber tokens))
       (concat (map (spec_stop_token stop_list minsize maxsize) (yielded tokens)))
   \<and> raised (StopFilter_call stop_list minsize maxsize renumber tokens) = raised tokens"
  by (simp add: StopFilter_call_def stop_loop_spec kept_iff_not_stopped)

lemma same_texts:
  "list_all2 (\<lambda>out kept. out = kept\<lparr>pos := pos out\<rparr> \<and> Q out kept) xs ys
     \<Longrightarrow> map text xs = map text ys"
proof (induction xs arbitrary: ys)
  case Nil
  then show ?case by simp
next
  case (Cons x xs)
  then obtain y ys' where ys: "ys = y # ys'" and x: "x = y\<lparr>pos := pos x\<rparr>"
    and r: "list_all2 (\<lambda>out kept. out = kept\<lparr>pos := pos out\<rparr> \<and> Q out kept) xs ys'"
    by (auto simp: list_all2_Cons1)
  from x have "text x = text (y\<lparr>pos := pos x\<rparr>)" by simp
  then have "text x = text y" by simp
  with Cons.IH [OF r] ys show ?case by simp
qed

text \<open>
  The theorem on the tokens \<open>a\<close>, \<open>an\<close>, \<open>apple\<close> with the default stop list,
  \<open>minsize = 2\<close> and \<open>remove_stopwords\<close> true: only \<open>apple\<close> is left.
\<close>

theorem StopFilter_decision_witness:
  "map text (yielded (StopFilter_call STOP_WORDS 2 None False
      \<lparr>yielded = [(Token_init False False True [])\<lparr>text := ''a''\<rparr>,
                   (Token_init False False True [])\<lparr>text := ''an''\<rparr>,
                   (Token_init False False True [])\<lparr>text := ''apple''\<rparr>],
       raised = None\<rparr>)) = [''apple'']"
proof -
  let ?s = "\<lparr>yielded = [(Token_init False False True [])\<lparr>text := ''a''\<rparr>,
                   (Token_init False False True [])\<lparr>text := ''an''\<rparr>,
                   (Token_init False False True [])\<lparr>text := ''apple''\<rparr>],
       raised = None\<rparr>"
  have "map text (yielded (StopFilter_call STOP_WORDS 2 None False ?s))
      = map text (concat (map (spec_stop_token STOP_WORDS 2 None) (yielded ?s)))"
    by (rule same_texts, rule StopFilter_decision [THEN conjunct2, THEN conjunct1])
  also have "\<dots> = [''apple'']"
    by (simp add: spec_stop_token_def spec_stopped_def STOP_WORDS_def Token_init_def len_def)
  finally show ?thesis .
qed

section \<open>Character offsets of the regex tokenizer\<close>

text \<open>
  Claim C5 asks that, with \<open>gaps=False\<close> and \<open>chars=True\<close>, each token carry
  \<open>start_char\<close> = offset + start of its match and \<open>end_char\<close> = offset + end of its
  match. The code at the input \<open>ab cd\<close> with offset 0: the matches are (0, 2) and
  (3, 5), and the tokens carry \<open>start_char\<close> 2 and 5, the ends of the matches, and
  \<open>end_char\<close> 0, the value \<open>Token.__init__\<close> gave it.
\<close>

theorem RegexTokenizer_offsets_at_ab_cd:
  "finditer default_pattern ''ab cd'' = [(0, 2), (3, 5)]
   \<and> map (\<lambda>t. (text t, start_char t, end_char t))
       (yielded (RegexTokenizer_call default_pattern False ''ab cd''
          (default_options\<lparr>kw_chars := True\<rparr>)))
     = [(''ab'', 2, 0), (''cd'', 5, 0)]"
  by code_simp

section \<open>Empty input\<close>

lemma gap_tokens_empty: "gap_tokens kw [] t prevend p matches = []"
  by (induction matches arbitrary: t prevend p) auto

text \<open>
  Claim C6 as stated fails: \<open>IDTokenizer\<close> on the empty string yields one token, whose
  text is the empty string.
\<close>

theorem IDTokenizer_empty_counterexample:
  "map text (yielded (tokenizer_call IDTokenizer [] default_options)) = [[]]
   \<and> yielded (tokenizer_call IDTokenizer [] default_options) \<noteq> []"
  by code_simp

text \<open>
  Claim C6, as the code has it. On the empty input string, with \<open>tokenize=True\<close>, the
  character-map tokenizer yields no token; so does the regex tokenizer when it splits on
  gaps or when its pattern has no match in the empty string, and the path tokenizer when
  its pattern has no match in the empty string. \<open>IDTokenizer\<close> yields exactly one
  token, with the empty text. None of them raises.
\<close>

theorem empty_input:
  "(kw_tokenize kw \<longrightarrow> tokenizer_call (CharsetTokenizer cm) [] kw = empty_stream)
   \<and> (kw_tokenize kw \<and> (gaps \<or> finditer expression [] = [])
        \<longrightarrow> tokenizer_call (RegexTokenizer expression gaps) [] kw = empty_stream)
   \<and> (finditer expr [] = [] \<longrightarrow> tokenizer_call (PathTokenizer expr) [] kw = empty_stream)
   \<and> (\<exists>t. tokenizer_call IDTokenizer [] kw = \<lparr>yielded = [t], raised = None\<rparr> \<and> text t = [])"
  by (auto simp: CharsetTokenizer_call_def RegexTokenizer_call_def PathTokenizer_call_def
        IDTokenizer_call_def empty_stream_def yield_def gap_tokens_empty Let_def)

text \<open>
  The theorem at the default options, the example character map and the default
  patterns of the regex and path tokenizers.
\<close>

theorem empty_input_witness:
  "tokenizer_call (CharsetTokenizer folding_map) [] default_options = empty_stream
   \<and> tokenizer_call (RegexTokenizer default_pattern False) [] default_options = empty_stream
   \<and> tokenizer_call (RegexTokenizer default_pattern True) [] default_options = empty_stream
   \<and> tokenizer_call (PathTokenizer path_pattern) [] default_options = empty_stream"
proof -
  have k: "kw_tokenize default_options"
    by (simp add: default_options_def)
  have d: "finditer default_pattern [] = []"
    by code_simp
  have p: "finditer path_pattern [] = []"
    by code_simp
  note e = empty_input [where kw = default_options and cm = folding_map
      and expression = default_pattern and expr = path_pattern]
  from e [where gaps = False] e [where gaps = True] k d p show ?thesis
    by simp
qed

section \<open>The character-map tokenizer\<close>

text \<open>
  Claim C7 asks that every token's text, the last one's included, be the translated
  text of its run. The code at the input \<open>Strase ABC\<close> with the example map (a total
  map, folding to lower case and breaking on the space): the first token is the
  translated \<open>strase\<close>, the token for the run at the end of the input is \<open>ABC\<close>, the
  characters of the input, where the translation of that run is \<open>abc\<close>.
\<close>

theorem CharsetTokenizer_trailing_run:
  "map text (yielded (CharsetTokenizer_call folding_map ''Strase ABC'' default_options))
     = [''strase'', ''ABC'']
   \<and> raised (CharsetTokenizer_call folding_map ''Strase ABC'' default_options) = None
   \<and> translate folding_map ''ABC'' = ''abc''"
  by code_simp

section \<open>Equality of pipelines\<close>

text \<open>
  Claim C8 asks that two pipelines differing in one configuration value be unequal. The
  code on two pairs of pipelines: the first pair differs only in the \<open>maxsize\<close> of its
  \<open>StopFilter\<close>, the second only in the \<open>gaps\<close> flag of its \<open>RegexTokenizer\<close>, and
  \<open>==\<close> answers true on both.
\<close>

theorem pipelines_equal_despite_configuration:
  "composable_eq
     (CompositeAnalyzer [Tok (RegexTokenizer default_pattern False),
                         Fil (StopFilter STOP_WORDS 2 None False)])
     (CompositeAnalyzer [Tok (RegexTokenizer default_pattern False),
                         Fil (StopFilter STOP_WORDS 2 (Some 5) False)])
   \<and> composable_eq
     (CompositeAnalyzer [Tok (RegexTokenizer default_pattern False), Fil LowercaseFilter])
     (CompositeAnalyzer [Tok (RegexTokenizer default_pattern True), Fil LowercaseFilter])"
  by simp

section \<open>The simple analyzer\<close>

text \<open>
  Claim C9, as the code has it: \<open>SimpleAnalyzer()\<close> on \<open>Hello there, this is a TEST\<close>
  yields the texts \<open>hello\<close>, \<open>there\<close>, \<open>this\<close>, \<open>is\<close>, \<open>a\<close>, \<open>test\<close>, in that
  order. The comma is no word character, so it belongs to no match of the default
  pattern.
\<close>

theorem SimpleAnalyzer_example:
  "analyze (SimpleAnalyzer default_pattern False) ''Hello there, this is a TEST'' default_options
     = Some (Inr [''hello'', ''there'', ''this'', ''is'', ''a'', ''test''])"
  by code_simp

text \<open>
  Claim C9 as stated fails: the texts are not the list with \<open>there,\<close> (comma included)
  in second place.
\<close>

theorem SimpleAnalyzer_counterexample:
  "analyze (SimpleAnalyzer default_pattern False) ''Hello there, this is a TEST'' default_options
     \<noteq> Some (Inr [''hello'', ''there,'', ''this'', ''is'', ''a'', ''test''])"
  by code_simp

section \<open>A multi-mode filter on an empty stream\<close>

lemma filter_call_empty:
  "filter_call f empty_stream = Inr empty_stream \<or> filter_call f empty_stream = Inl StopIteration"
  by (cases f) (simp_all add: empty_stream_def each_token_def StopFilter_call_def next_token_def)

lemma MultiFilter_call_empty:
  "filter_call (MultiFilter filters) empty_stream = Inl StopIteration"
  by (simp add: empty_stream_def next_token_def)

lemma run_filters_empty:
  assumes "Fil (MultiFilter filters) \<in> set its" and "list_all is_Filter its"
  shows "run_filters no_morph its empty_stream = Some (Inl StopIteration)"
  using assms
proof (induction its)
  case Nil
  then show ?case by simp
next
  case (Cons c its)
  from Cons.prems(2) obtain f where c: "c = Fil f"
    by (cases c) auto
  show ?case
  proof (cases "f = MultiFilter filters")
    case True
    with c show ?thesis
      by (simp add: MultiFilter_call_empty del: filter_call.simps)
  next
    case False
    with Cons.prems c have "Fil (MultiFilter filters) \<in> set its" "list_all is_Filter its"
      by auto
    then have IH: "run_filters no_morph its empty_stream = Some (Inl StopIteration)"
      by (rule Cons.IH)
    from filter_call_empty [of f] IH c show ?thesis
      by auto
  qed
qed

text \<open>
  Claim C10. For every pipeline, a tokenizer followed by filters one of which is a
  \<open>MultiFilter\<close>, and every input on which the tokenizer yields no token (and raises
  nothing), the call of the pipeline itself raises \<open>StopIteration\<close>: no generator is
  returned, with \<open>no_morph\<close> or without.
\<close>

theorem MultiFilter_empty_input:
  assumes "Fil (MultiFilter filters) \<in> set its" and "list_all is_Filter its"
    and "tokenizer_call tk v kw = empty_stream"
  shows "call (CompositeAnalyzer (Tok tk # its)) v no_morph kw = Some (Inl StopIteration)"
  using assms by (simp add: run_filters_empty)

text \<open>
  The theorem on the default regex tokenizer, a lowercase filter and a multi-mode filter,
  called on the empty string.
\<close>

theorem MultiFilter_empty_input_witness:
  "call (CompositeAnalyzer [Tok (RegexTokenizer default_pattern False), Fil LowercaseFilter,
                            Fil (MultiFilter [(''a'', LowercaseFilter), (''b'', PassFilter)])])
     [] False default_options = Some (Inl StopIteration)"
proof -
  have e: "tokenizer_call (RegexTokenizer default_pattern False) [] default_options = empty_stream"
    by code_simp
  show ?thesis
    by (rule MultiFilter_empty_input [OF _ _ e]) simp_all
qed

end
